theory Spec2Isabelle
  imports Main
begin

section \<open>Python values\<close>

text \<open>
  The program of \<^verbatim>\<open>breakdown_of_expensive_service.py\<close> handles values decoded from JSON
  (the event, the decoded \<^verbatim>\<open>services\<close> field, the billing client's parsed response) and one
  dictionary of its own, \<^verbatim>\<open>cost_breakdown\<close>. A value is \<^verbatim>\<open>None\<close>, a \<^verbatim>\<open>bool\<close>, an \<^verbatim>\<open>int\<close>, a
  \<^verbatim>\<open>str\<close>, a \<^verbatim>\<open>list\<close> or a \<^verbatim>\<open>dict\<close>. A dictionary keeps its items in insertion order; its
  keys are the hashable values among these, which is what \<open>pykey\<close> holds. A character is a
  code point below 256. Python's \<^verbatim>\<open>float\<close> is not part of the embedding.
\<close>

datatype pykey = KNone | KBool bool | KInt int | KStr string

datatype pyval =
    PNone
  | PBool bool
  | PInt int
  | PStr string
  | PList "pyval list"
  | PDict "(pykey \<times> pyval) list"

text \<open>
  An exception object: whether its class derives from \<^verbatim>\<open>Exception\<close> (\<^verbatim>\<open>KeyboardInterrupt\<close>
  and \<^verbatim>\<open>SystemExit\<close> derive from \<^verbatim>\<open>BaseException\<close> only), the name of its class, and the text
  \<^verbatim>\<open>str(e)\<close>.
\<close>

datatype exception = Exc (derives_Exception: bool) (class_name: string) (str_text: string)

subsection \<open>Text of numbers and characters\<close>

fun nat_digits :: "nat \<Rightarrow> string" where
  "nat_digits n = (if n < 10 then [''0123456789'' ! n]
     else nat_digits (n div 10) @ [''0123456789'' ! (n mod 10)])"

declare nat_digits.simps [simp del]

definition int_str :: "int \<Rightarrow> string" where
  "int_str i = (if i < 0 then CHR ''-'' # nat_digits (nat (- i)) else nat_digits (nat i))"

definition hex2 :: "nat \<Rightarrow> string" where
  "hex2 n = [''0123456789abcdef'' ! ((n div 16) mod 16), ''0123456789abcdef'' ! (n mod 16)]"

fun join :: "string \<Rightarrow> string list \<Rightarrow> string" where
  "join sep [] = []"
| "join sep [x] = x"
| "join sep (x # y # ys) = x @ sep @ join sep (y # ys)"

subsection \<open>\<^verbatim>\<open>repr\<close> and \<^verbatim>\<open>str\<close>\<close>

text \<open>
  \<^verbatim>\<open>repr\<close> of a string picks the double quote when the string holds a single quote and no
  double quote, escapes the quote and the backslash, writes tab, newline and carriage return
  as \<^verbatim>\<open>\t \n \r\<close>, and every other character that is not printable as \<^verbatim>\<open>\xhh\<close>.
\<close>

definition repr_char :: "char \<Rightarrow> char \<Rightarrow> string" where
  "repr_char quote c =
     (let n = (of_char c :: nat) in
      if c = quote \<or> c = CHR 0x5C then [CHR 0x5C, c]
      else if n = 0x09 then [CHR 0x5C, CHR ''t'']
      else if n = 0x0A then [CHR 0x5C, CHR ''n'']
      else if n = 0x0D then [CHR 0x5C, CHR ''r'']
      else if n < 0x20 \<or> n = 0x7F then [CHR 0x5C, CHR ''x''] @ hex2 n
      else if n < 0x7F then [c]
      else if n \<le> 0xA0 \<or> n = 0xAD then [CHR 0x5C, CHR ''x''] @ hex2 n
      else [c])"

definition repr_str :: "string \<Rightarrow> string" where
  "repr_str s =
     (let quote = (if CHR 0x27 \<in> set s \<and> CHR 0x22 \<notin> set s then CHR 0x22 else CHR 0x27)
      in quote # concat (map (repr_char quote) s) @ [quote])"

fun repr_key :: "pykey \<Rightarrow> string" where
  "repr_key KNone = ''None''"
| "repr_key (KBool b) = (if b then ''True'' else ''False'')"
| "repr_key (KInt i) = int_str i"
| "repr_key (KStr s) = repr_str s"

fun py_repr :: "pyval \<Rightarrow> string" where
  "py_repr PNone = ''None''"
| "py_repr (PBool b) = (if b then ''True'' else ''False'')"
| "py_repr (PInt i) = int_str i"
| "py_repr (PStr s) = repr_str s"
| "py_repr (PList xs) = ''['' @ join '', '' (map py_repr xs) @ '']''"
| "py_repr (PDict kvs) =
     ''{'' @ join '', '' (map (\<lambda>(k, v). repr_key k @ '': '' @ py_repr v) kvs) @ ''}''"

text \<open>\<^verbatim>\<open>str(v)\<close>, which is what an f-string field \<^verbatim>\<open>{v}\<close> inserts.\<close>

fun py_str :: "pyval \<Rightarrow> string" where
  "py_str (PStr s) = s"
| "py_str v = py_repr v"

fun type_name :: "pyval \<Rightarrow> string" where
  "type_name PNone = ''NoneType''"
| "type_name (PBool b) = ''bool''"
| "type_name (PInt i) = ''int''"
| "type_name (PStr s) = ''str''"
| "type_name (PList xs) = ''list''"
| "type_name (PDict kvs) = ''dict''"

subsection \<open>Exceptions the interpreter raises\<close>

abbreviation KeyError :: "string \<Rightarrow> exception" where
  "KeyError k \<equiv> Exc True ''KeyError'' (repr_str k)"

abbreviation TypeError :: "string \<Rightarrow> exception" where
  "TypeError msg \<equiv> Exc True ''TypeError'' msg"

subsection \<open>Dictionaries\<close>

text \<open>
  Keys are compared with \<^verbatim>\<open>==\<close>, for which \<^verbatim>\<open>True\<close> is \<^verbatim>\<open>1\<close> and \<^verbatim>\<open>False\<close> is \<^verbatim>\<open>0\<close>.
  \<open>key_norm\<close> maps equal keys to one representative.
\<close>

fun key_norm :: "pykey \<Rightarrow> pykey" where
  "key_norm (KBool b) = KInt (if b then 1 else 0)"
| "key_norm k = k"

definition key_eq :: "pykey \<Rightarrow> pykey \<Rightarrow> bool" where
  "key_eq a b = (key_norm a = key_norm b)"

text \<open>\<^verbatim>\<open>hash(v)\<close>: lists and dictionaries are unhashable.\<close>

fun py_hash :: "pyval \<Rightarrow> exception + pykey" where
  "py_hash PNone = Inr KNone"
| "py_hash (PBool b) = Inr (KBool b)"
| "py_hash (PInt i) = Inr (KInt i)"
| "py_hash (PStr s) = Inr (KStr s)"
| "py_hash v = Inl (TypeError (''unhashable type: '' @ repr_str (type_name v)))"

fun of_key :: "pykey \<Rightarrow> pyval" where
  "of_key KNone = PNone"
| "of_key (KBool b) = PBool b"
| "of_key (KInt i) = PInt i"
| "of_key (KStr s) = PStr s"

fun dict_lookup :: "(pykey \<times> 'v) list \<Rightarrow> pykey \<Rightarrow> 'v option" where
  "dict_lookup [] k = None"
| "dict_lookup ((k', v) # kvs) k = (if key_eq k' k then Some v else dict_lookup kvs k)"

text \<open>
  \<^verbatim>\<open>d[k] = v\<close> on the items of a dictionary: an equal key keeps its place and its key
  object and takes the new value; a new key goes to the end.
\<close>

fun dict_store :: "pykey \<Rightarrow> 'v \<Rightarrow> (pykey \<times> 'v) list \<Rightarrow> (pykey \<times> 'v) list" where
  "dict_store k v [] = [(k, v)]"
| "dict_store k v ((k', v') # kvs) =
     (if key_eq k' k then (k', v) # kvs else (k', v') # dict_store k v kvs)"

text \<open>\<^verbatim>\<open>d[k] = v\<close> with \<^verbatim>\<open>k\<close> any value: hashing \<^verbatim>\<open>k\<close> comes first.\<close>

definition dict_setitem ::
  "(pykey \<times> pyval) list \<Rightarrow> pyval \<Rightarrow> pyval \<Rightarrow> exception + (pykey \<times> pyval) list" where
  "dict_setitem d k v = (case py_hash k of Inl e \<Rightarrow> Inl e | Inr key \<Rightarrow> Inr (dict_store key v d))"

text \<open>\<^verbatim>\<open>d[k]\<close> on the items of a dictionary, \<^verbatim>\<open>k\<close> a string.\<close>

definition dict_getitem :: "(pykey \<times> pyval) list \<Rightarrow> string \<Rightarrow> exception + pyval" where
  "dict_getitem d k = (case dict_lookup d (KStr k) of None \<Rightarrow> Inl (KeyError k) | Some v \<Rightarrow> Inr v)"

text \<open>\<^verbatim>\<open>obj[k]\<close> with \<^verbatim>\<open>k\<close> a string and \<^verbatim>\<open>obj\<close> any value.\<close>

fun py_getitem :: "pyval \<Rightarrow> string \<Rightarrow> exception + pyval" where
  "py_getitem (PDict d) k = dict_getitem d k"
| "py_getitem (PList xs) k = Inl (TypeError ''list indices must be integers or slices, not str'')"
| "py_getitem (PStr s) k =
     Inl (TypeError (''string indices must be integers, not '' @ repr_str ''str''))"
| "py_getitem v k = Inl (TypeError (repr_str (type_name v) @ '' object is not subscriptable''))"

text \<open>
  The items \<^verbatim>\<open>for x in obj\<close> runs over: the elements of a list, the keys of a dictionary,
  the characters of a string.
\<close>

fun py_iter :: "pyval \<Rightarrow> exception + pyval list" where
  "py_iter (PList xs) = Inr xs"
| "py_iter (PDict d) = Inr (map (of_key \<circ> fst) d)"
| "py_iter (PStr s) = Inr (map (\<lambda>c. PStr [c]) s)"
| "py_iter v = Inl (TypeError (repr_str (type_name v) @ '' object is not iterable''))"

subsection \<open>\<^verbatim>\<open>json.dumps\<close>\<close>

text \<open>
  With the default options: \<^verbatim>\<open>ensure_ascii\<close>, items separated by a comma and a space, key and
  value by a colon and a space, a key that is not a string written as the string of its
  JSON text.
\<close>

definition json_char :: "char \<Rightarrow> string" where
  "json_char c =
     (let n = (of_char c :: nat) in
      if c = CHR 0x22 \<or> c = CHR 0x5C then [CHR 0x5C, c]
      else if n = 0x08 then [CHR 0x5C, CHR ''b'']
      else if n = 0x0C then [CHR 0x5C, CHR ''f'']
      else if n = 0x0A then [CHR 0x5C, CHR ''n'']
      else if n = 0x0D then [CHR 0x5C, CHR ''r'']
      else if n = 0x09 then [CHR 0x5C, CHR ''t'']
      else if 0x20 \<le> n \<and> n \<le> 0x7E then [c]
      else [CHR 0x5C, CHR ''u'', CHR ''0'', CHR ''0''] @ hex2 n)"

definition json_string :: "string \<Rightarrow> string" where
  "json_string s = CHR 0x22 # concat (map json_char s) @ [CHR 0x22]"

fun json_key :: "pykey \<Rightarrow> string" where
  "json_key (KStr s) = s"
| "json_key (KBool b) = (if b then ''true'' else ''false'')"
| "json_key KNone = ''null''"
| "json_key (KInt i) = int_str i"

fun dumps :: "pyval \<Rightarrow> string" where
  "dumps PNone = ''null''"
| "dumps (PBool b) = (if b then ''true'' else ''false'')"
| "dumps (PInt i) = int_str i"
| "dumps (PStr s) = json_string s"
| "dumps (PList xs) = ''['' @ join '', '' (map dumps xs) @ '']''"
| "dumps (PDict kvs) =
     ''{'' @ join '', '' (map (\<lambda>(k, v). json_string (json_key k) @ '': '' @ dumps v) kvs) @ ''}''"

section \<open>The program\<close>

subsection \<open>Its surroundings\<close>

text \<open>
  Two library calls are outside the repository and are parameters of the model.
  \<^verbatim>\<open>json.loads\<close> takes any object and returns the decoded value or raises.
  \<^verbatim>\<open>ce_client.get_cost_and_usage\<close> takes its keyword arguments (a dictionary) and returns the
  parsed response (the items of a dictionary) or raises; it is a remote service, so what it
  answers may depend on the requests it has received before, which are its first argument.
  The errors of the billing client (\<^verbatim>\<open>ClientError\<close>, \<^verbatim>\<open>BotoCoreError\<close> and their subclasses)
  all derive from \<^verbatim>\<open>Exception\<close>; the model does not assume it, and follows
  \<^verbatim>\<open>except Exception\<close> as it is written.
\<close>

record env =
  loads :: "pyval \<Rightarrow> exception + pyval"
  get_cost_and_usage :: "pyval list \<Rightarrow> pyval \<Rightarrow> exception + (pykey \<times> pyval) list"

text \<open>
  A record handed to \<^verbatim>\<open>logging\<close>: \<^verbatim>\<open>logging.error(msg)\<close> with the formatted text,
  \<^verbatim>\<open>logging.info(obj)\<close> with the object.
\<close>

datatype log_record = ERROR string | INFO pyval

text \<open>
  What an invocation changes outside itself: the requests sent to the billing service and
  the records handed to \<^verbatim>\<open>logging\<close>, both oldest first.
\<close>

record state =
  calls :: "pyval list"
  logged :: "log_record list"

record response =
  statusCode :: int
  body :: string

subsection \<open>\<^verbatim>\<open>breakdown_service_cost\<close>\<close>

text \<open>The keyword arguments of the call at lines 37 to 48.\<close>

definition request :: "pyval \<Rightarrow> pyval \<Rightarrow> pyval \<Rightarrow> pyval \<Rightarrow> pyval" where
  "request service account_id start_date end_date = PDict [
     (KStr ''TimePeriod'', PDict [(KStr ''Start'', start_date), (KStr ''End'', end_date)]),
     (KStr ''Granularity'', PStr ''DAILY''),
     (KStr ''Metrics'', PList [PStr ''UnblendedCost'']),
     (KStr ''GroupBy'', PList [PDict [(KStr ''Type'', PStr ''DIMENSION''),
                                      (KStr ''Key'', PStr ''USAGE_TYPE'')]]),
     (KStr ''Filter'', PDict [(KStr ''And'', PList [
        PDict [(KStr ''Dimensions'',
                PDict [(KStr ''Key'', PStr ''SERVICE''), (KStr ''Values'', PList [service])])],
        PDict [(KStr ''Dimensions'',
                PDict [(KStr ''Key'', PStr ''LINKED_ACCOUNT''),
                       (KStr ''Values'', PList [account_id])])]])])]"

text \<open>
  The \<^verbatim>\<open>try\<close> block is \<open>attempt\<close>: the call, then \<^verbatim>\<open>response['ResultsByTime']\<close>. The
  \<^verbatim>\<open>except Exception\<close> clause takes what derives from \<^verbatim>\<open>Exception\<close>, logs and returns
  \<^verbatim>\<open>None\<close>; anything else leaves the function.
\<close>

definition breakdown_service_cost ::
  "env \<Rightarrow> pyval \<Rightarrow> pyval \<Rightarrow> pyval \<Rightarrow> pyval \<Rightarrow> state \<Rightarrow> (exception + pyval) \<times> state" where
  "breakdown_service_cost env service account_id start_date end_date st =
     (let kwargs = request service account_id start_date end_date;
          st1 = st\<lparr>calls := calls st @ [kwargs]\<rparr>;
          attempt = (case get_cost_and_usage env (calls st) kwargs of
                       Inl e \<Rightarrow> Inl e
                     | Inr response \<Rightarrow> dict_getitem response ''ResultsByTime'')
      in case attempt of
           Inr results \<Rightarrow> (Inr results, st1)
         | Inl e \<Rightarrow>
             if derives_Exception e
             then (Inr PNone,
                   st1\<lparr>logged := logged st1 @
                     [ERROR (''Error fetching cost breakdown for '' @ py_str service @ '': '' @
                             str_text e)]\<rparr>)
             else (Inl e, st1))"

subsection \<open>\<^verbatim>\<open>lambda_handler\<close>\<close>

text \<open>
  The loop of lines 77 to 81 over the items still to come, with \<^verbatim>\<open>cost_breakdown\<close> as
  built so far.
\<close>

fun process_services ::
  "env \<Rightarrow> pyval \<Rightarrow> pyval \<Rightarrow> pyval \<Rightarrow> pyval list \<Rightarrow> (pykey \<times> pyval) list \<Rightarrow> state
     \<Rightarrow> (exception + (pykey \<times> pyval) list) \<times> state" where
  "process_services env account_id start_date end_date [] cost_breakdown st =
     (Inr cost_breakdown, st)"
| "process_services env account_id start_date end_date (service_data # rest) cost_breakdown st =
     (case py_getitem service_data ''Service'' of
        Inl e \<Rightarrow> (Inl e, st)
      | Inr service_name \<Rightarrow>
          (case breakdown_service_cost env service_name account_id start_date end_date st of
             (Inl e, st1) \<Rightarrow> (Inl e, st1)
           | (Inr breakdown, st1) \<Rightarrow>
               (case dict_setitem cost_breakdown service_name breakdown of
                  Inl e \<Rightarrow> (Inl e, st1)
                | Inr cost_breakdown1 \<Rightarrow>
                    process_services env account_id start_date end_date rest
                      cost_breakdown1 st1)))"

definition lambda_handler ::
  "env \<Rightarrow> pyval \<Rightarrow> 'c \<Rightarrow> state \<Rightarrow> (exception + response) \<times> state" where
  "lambda_handler env event ctxt st =
     (case py_getitem event ''services'' of
        Inl e \<Rightarrow> (Inl e, st)
      | Inr text \<Rightarrow>
     (case loads env text of
        Inl e \<Rightarrow> (Inl e, st)
      | Inr services \<Rightarrow>
     (case py_getitem event ''start_date'' of
        Inl e \<Rightarrow> (Inl e, st)
      | Inr start_date \<Rightarrow>
     (case py_getitem event ''end_date'' of
        Inl e \<Rightarrow> (Inl e, st)
      | Inr end_date \<Rightarrow>
     (case py_getitem event ''account_id'' of
        Inl e \<Rightarrow> (Inl e, st)
      | Inr account_id \<Rightarrow>
     (case py_iter services of
        Inl e \<Rightarrow> (Inl e, st)
      | Inr items \<Rightarrow>
     (case process_services env account_id start_date end_date items [] st of
        (Inl e, st1) \<Rightarrow> (Inl e, st1)
      | (Inr cost_breakdown, st1) \<Rightarrow>
          (Inr \<lparr>statusCode = 200, body = dumps (PDict cost_breakdown)\<rparr>,
           st1\<lparr>logged := logged st1 @ [INFO (PDict cost_breakdown)]\<rparr>))))))))"

text \<open>
  The keys of a dictionary up to \<^verbatim>\<open>==\<close>, in the order of the items. Python's
  \<^verbatim>\<open>set(d.keys())\<close> is the set of this list.
\<close>

definition norm_keys :: "(pykey \<times> 'v) list \<Rightarrow> pykey list" where
  "norm_keys d = map (key_norm \<circ> fst) d"

section \<open>An example environment\<close>

text \<open>
  Three \<^verbatim>\<open>services\<close> documents, a decoder that knows the JSON text of these documents and
  of the empty array and rejects every other text, and a billing service that throttles
  every query for Amazon S3, has no line items for Amazon Glacier, and answers any other
  query with one day, marked as estimated when it is the first query it receives.
\<close>

definition ec2_and_s3 :: pyval where
  "ec2_and_s3 = PList [PDict [(KStr ''Service'', PStr ''Amazon EC2'')],
                       PDict [(KStr ''Service'', PStr ''Amazon S3'')]]"

definition ec2_twice :: pyval where
  "ec2_twice = PList [PDict [(KStr ''Service'', PStr ''Amazon EC2'')],
                      PDict [(KStr ''Service'', PStr ''Amazon EC2'')]]"

definition entry_without_service :: pyval where
  "entry_without_service = PList [PDict [(KStr ''Service'', PStr ''Amazon EC2'')],
                                  PDict [(KStr ''Name'', PStr ''Amazon S3'')]]"

definition example_documents :: "pyval list" where
  "example_documents = [PList [], ec2_and_s3, ec2_twice, entry_without_service]"

definition example_loads :: "pyval \<Rightarrow> exception + pyval" where
  "example_loads v =
     (case v of
        PStr s \<Rightarrow>
          (case find (\<lambda>d. dumps d = s) example_documents of
             Some d \<Rightarrow> Inr d
           | None \<Rightarrow> Inl (Exc True ''JSONDecodeError'' ''Expecting value: line 1 column 1 (char 0)''))
      | _ \<Rightarrow> Inl (TypeError (''the JSON object must be str, bytes or bytearray, not '' @ type_name v)))"

definition throttled :: exception where
  "throttled = Exc True ''ClientError''
     ''An error occurred (ThrottlingException) when calling the GetCostAndUsage operation: Rate exceeded''"

definition example_api :: "pyval list \<Rightarrow> pyval \<Rightarrow> exception + (pykey \<times> pyval) list" where
  "example_api history kwargs =
     (if kwargs = request (PStr ''Amazon S3'') (PStr ''123456789012'')
                    (PStr ''2024-01-01'') (PStr ''2024-01-08'')
      then Inl throttled
      else if kwargs = request (PStr ''Amazon Glacier'') (PStr ''123456789012'')
                    (PStr ''2024-01-01'') (PStr ''2024-01-08'')
      then Inr [(KStr ''ResultsByTime'', PList [])]
      else Inr [(KStr ''ResultsByTime'',
                 PList [PDict [(KStr ''Groups'', PList []),
                               (KStr ''Estimated'', PBool (history = []))]])])"

definition example_env :: env where
  "example_env = \<lparr>loads = example_loads, get_cost_and_usage = example_api\<rparr>"

definition example_event :: "pyval \<Rightarrow> pyval" where
  "example_event text = PDict [
     (KStr ''services'', text),
     (KStr ''start_date'', PStr ''2024-01-01''),
     (KStr ''end_date'', PStr ''2024-01-08''),
     (KStr ''account_id'', PStr ''123456789012'')]"

definition idle :: state where
  "idle = \<lparr>calls = [], logged = []\<rparr>"

section \<open>Properties of the model\<close>

subsection \<open>\<^verbatim>\<open>breakdown_service_cost\<close>\<close>

lemma bsc_calls:
  "calls (snd (breakdown_service_cost env service a sd ed st)) = calls st @ [request service a sd ed]"
  by (simp add: breakdown_service_cost_def Let_def split: sum.splits)

lemma bsc_fst_calls_only:
  "calls s = calls s' \<Longrightarrow>
   fst (breakdown_service_cost env service a sd ed s) = fst (breakdown_service_cost env service a sd ed s')"
  by (simp add: breakdown_service_cost_def Let_def split: sum.splits)

lemma bsc_raises:
  "fst (breakdown_service_cost env service a sd ed st) = Inl e \<longleftrightarrow>
   get_cost_and_usage env (calls st) (request service a sd ed) = Inl e \<and> \<not> derives_Exception e"
  by (auto simp add: breakdown_service_cost_def Let_def dict_getitem_def split: sum.splits option.splits)

lemma bsc_success:
  assumes "get_cost_and_usage env (calls st) (request service a sd ed) = Inr response"
    and "dict_lookup response (KStr ''ResultsByTime'') = Some results"
  shows "breakdown_service_cost env service a sd ed st =
     (Inr results, st\<lparr>calls := calls st @ [request service a sd ed]\<rparr>)"
  using assms by (simp add: breakdown_service_cost_def Let_def dict_getitem_def)

subsection \<open>Dictionaries\<close>

lemma key_norm_idem [simp]: "key_norm (key_norm k) = key_norm k"
  by (cases k) auto

lemma key_eq_refl [simp]: "key_eq k k"
  by (simp add: key_eq_def)

lemma norm_keys_simps [simp]:
  "norm_keys [] = []" "norm_keys ((k, v) # d) = key_norm k # norm_keys d"
  by (simp_all add: norm_keys_def)

lemma norm_keys_store:
  "norm_keys (dict_store k v d) =
     (if key_norm k \<in> set (norm_keys d) then norm_keys d else norm_keys d @ [key_norm k])"
proof (induction d)
  case Nil
  show ?case by simp
next
  case (Cons p d)
  obtain k' v' where p: "p = (k', v')" by (cases p)
  show ?case
  proof (cases "key_norm k' = key_norm k")
    case True
    then show ?thesis by (simp add: p key_eq_def)
  next
    case False
    then have "key_norm k \<noteq> key_norm k'" by simp
    with False Cons.IH show ?thesis by (simp add: p key_eq_def)
  qed
qed

lemma dict_store_keys:
  "set (norm_keys (dict_store k v d)) = insert (key_norm k) (set (norm_keys d))"
  by (auto simp: norm_keys_store)

lemma dict_store_distinct:
  "distinct (norm_keys d) \<Longrightarrow> distinct (norm_keys (dict_store k v d))"
  by (simp add: norm_keys_store)

lemma dict_lookup_store:
  "dict_lookup (dict_store k v d) k' = (if key_eq k k' then Some v else dict_lookup d k')"
  by (induction d) (auto simp: key_eq_def)

lemma fold_store_keys:
  "set (norm_keys (fold (\<lambda>(k, v). dict_store k v) kvs d)) =
   set (norm_keys d) \<union> key_norm ` set (map fst kvs)"
  by (induction kvs arbitrary: d) (auto simp: dict_store_keys)

lemma fold_store_distinct:
  "distinct (norm_keys d) \<Longrightarrow> distinct (norm_keys (fold (\<lambda>(k, v). dict_store k v) kvs d))"
  by (induction kvs arbitrary: d) (auto simp: dict_store_distinct)

lemma fold_store_other:
  "\<forall>p\<in>set kvs. \<not> key_eq (fst p) k \<Longrightarrow>
   dict_lookup (fold (\<lambda>(k, v). dict_store k v) kvs d) k = dict_lookup d k"
  by (induction kvs arbitrary: d) (auto simp: dict_lookup_store)

lemma fold_store_last:
  "i < length kvs \<Longrightarrow>
   \<forall>j. i < j \<and> j < length kvs \<longrightarrow> \<not> key_eq (fst (kvs ! j)) (fst (kvs ! i)) \<Longrightarrow>
   dict_lookup (fold (\<lambda>(k, v). dict_store k v) kvs d) (fst (kvs ! i)) = Some (snd (kvs ! i))"
proof (induction kvs arbitrary: d i)
  case Nil
  then show ?case by simp
next
  case (Cons p kvs)
  obtain k v where p: "p = (k, v)" by (cases p)
  show ?case
  proof (cases i)
    case 0
    have "\<forall>q\<in>set kvs. \<not> key_eq (fst q) k"
    proof
      fix q assume "q \<in> set kvs"
      then obtain j where j: "j < length kvs" "kvs ! j = q" by (auto simp: in_set_conv_nth)
      with Cons.prems(2) [rule_format, of "Suc j"] 0 p show "\<not> key_eq (fst q) k" by simp
    qed
    then have "dict_lookup (fold (\<lambda>(k, v). dict_store k v) kvs (dict_store k v d)) k =
               dict_lookup (dict_store k v d) k"
      by (rule fold_store_other)
    with 0 p show ?thesis by (simp add: dict_lookup_store)
  next
    case (Suc i')
    with Cons.prems(1) have i': "i' < length kvs" by simp
    have "\<forall>j. i' < j \<and> j < length kvs \<longrightarrow> \<not> key_eq (fst (kvs ! j)) (fst (kvs ! i'))"
    proof (intro allI impI)
      fix j assume "i' < j \<and> j < length kvs"
      with Cons.prems(2) [rule_format, of "Suc j"] Suc
      show "\<not> key_eq (fst (kvs ! j)) (fst (kvs ! i'))" by simp
    qed
    from Cons.IH [OF i' this] Suc p show ?thesis by simp
  qed
qed

lemma py_hash_of_key: "py_hash n = Inr k \<Longrightarrow> n = of_key k"
  by (cases n) auto

lemma of_key_PStr: "of_key k = PStr s \<longleftrightarrow> k = KStr s"
  by (cases k) auto

subsection \<open>The loop\<close>

text \<open>
  A loop that ends without an exception has read a \<^verbatim>\<open>Service\<close> value from every item,
  hashed it, sent one request per item in order, and stored the returned values one after
  the other.
\<close>

lemma process_services_Inr:
  assumes "process_services env a sd ed items cb st = (Inr cb', st')"
  shows "\<exists>names keys vals.
     map (\<lambda>x. py_getitem x ''Service'') items = map Inr names \<and>
     map py_hash names = map Inr keys \<and>
     length vals = length items \<and>
     calls st' = calls st @ map (\<lambda>n. request n a sd ed) names \<and>
     cb' = fold (\<lambda>(k, v). dict_store k v) (zip keys vals) cb \<and>
     (\<forall>i<length items. \<forall>s::state. calls s = calls st @ map (\<lambda>n. request n a sd ed) (take i names) \<longrightarrow>
         fst (breakdown_service_cost env (names ! i) a sd ed s) = Inr (vals ! i))"
  using assms
proof (induction items arbitrary: cb st)
  case Nil
  then show ?case by simp
next
  case (Cons x items)
  from Cons.prems obtain name where name: "py_getitem x ''Service'' = Inr name"
    by (cases "py_getitem x ''Service''") auto
  obtain r st1 where bsc: "breakdown_service_cost env name a sd ed st = (r, st1)"
    by (cases "breakdown_service_cost env name a sd ed st")
  from Cons.prems name bsc obtain v where r: "r = Inr v"
    by (cases r) auto
  from Cons.prems name bsc r obtain cb1 where cb1: "dict_setitem cb name v = Inr cb1"
    by (cases "dict_setitem cb name v") auto
  from cb1 obtain key where key: "py_hash name = Inr key" and cb1_eq: "cb1 = dict_store key v cb"
    by (auto simp: dict_setitem_def split: sum.splits)
  from Cons.prems name bsc r cb1
  have rest: "process_services env a sd ed items cb1 st1 = (Inr cb', st')"
    by simp
  have calls1: "calls st1 = calls st @ [request name a sd ed]"
    using bsc_calls [of env name a sd ed st] bsc by simp
  from Cons.IH [OF rest] obtain names keys vals where
    IH: "map (\<lambda>x. py_getitem x ''Service'') items = map Inr names"
        "map py_hash names = map Inr keys"
        "length vals = length items"
        "calls st' = calls st1 @ map (\<lambda>n. request n a sd ed) names"
        "cb' = fold (\<lambda>(k, v). dict_store k v) (zip keys vals) cb1"
        "\<forall>i<length items. \<forall>s::state. calls s = calls st1 @ map (\<lambda>n. request n a sd ed) (take i names) \<longrightarrow>
           fst (breakdown_service_cost env (names ! i) a sd ed s) = Inr (vals ! i)"
    by blast
  have last: "\<forall>i<length (x # items). \<forall>s::state.
      calls s = calls st @ map (\<lambda>n. request n a sd ed) (take i (name # names)) \<longrightarrow>
      fst (breakdown_service_cost env ((name # names) ! i) a sd ed s) = Inr ((v # vals) ! i)"
  proof (intro allI impI)
    fix i and s :: state
    assume i: "i < length (x # items)"
      and s: "calls s = calls st @ map (\<lambda>n. request n a sd ed) (take i (name # names))"
    show "fst (breakdown_service_cost env ((name # names) ! i) a sd ed s) = Inr ((v # vals) ! i)"
    proof (cases i)
      case 0
      with s have "calls s = calls st" by simp
      then have "fst (breakdown_service_cost env name a sd ed s) =
                 fst (breakdown_service_cost env name a sd ed st)"
        by (rule bsc_fst_calls_only)
      with bsc r 0 show ?thesis by simp
    next
      case (Suc j)
      with i have j: "j < length items" by simp
      from s Suc calls1 have "calls s = calls st1 @ map (\<lambda>n. request n a sd ed) (take j names)"
        by simp
      with IH(6) j have "fst (breakdown_service_cost env (names ! j) a sd ed s) = Inr (vals ! j)"
        by blast
      with Suc show ?thesis by simp
    qed
  qed
  show ?case
    apply (rule exI [of _ "name # names"])
    apply (rule exI [of _ "key # keys"])
    apply (rule exI [of _ "v # vals"])
    using name key IH(1-5) calls1 cb1_eq last
    apply (intro conjI)
         apply simp_all
    done
qed

lemma process_services_bad_entry:
  "x \<in> set items \<Longrightarrow> py_getitem x ''Service'' = Inl e0 \<Longrightarrow>
   \<exists>e st'. process_services env a sd ed items cb st = (Inl e, st')"
proof (induction items arbitrary: cb st)
  case Nil
  then show ?case by simp
next
  case (Cons y items)
  show ?case
  proof (cases "py_getitem y ''Service''")
    case (Inl e)
    then show ?thesis by simp
  next
    case (Inr name)
    with Cons.prems have x: "x \<in> set items" by auto
    obtain r st1 where bsc: "breakdown_service_cost env name a sd ed st = (r, st1)"
      by (cases "breakdown_service_cost env name a sd ed st")
    show ?thesis
    proof (cases r)
      case (Inl e)
      with Inr bsc show ?thesis by simp
    next
      case v: (Inr v)
      show ?thesis
      proof (cases "dict_setitem cb name v")
        case (Inl e)
        with Inr bsc v show ?thesis by simp
      next
        case cb1: (Inr cb1)
        from Cons.IH [OF x Cons.prems(2), of cb1 st1] Inr bsc v cb1 show ?thesis by simp
      qed
    qed
  qed
qed

text \<open>
  The loop ends without an exception when every item has a hashable \<^verbatim>\<open>Service\<close> value and
  the billing service raises nothing but what derives from \<^verbatim>\<open>Exception\<close>.
\<close>

lemma process_services_returns:
  assumes "\<forall>x\<in>set items. \<exists>n k. py_getitem x ''Service'' = Inr n \<and> py_hash n = Inr k"
    and "\<forall>h r e. get_cost_and_usage env h r = Inl e \<longrightarrow> derives_Exception e"
  shows "\<exists>cb' st'. process_services env a sd ed items cb st = (Inr cb', st')"
  using assms(1)
proof (induction items arbitrary: cb st)
  case Nil
  show ?case by simp
next
  case (Cons x items)
  from Cons.prems obtain n k where n: "py_getitem x ''Service'' = Inr n" and k: "py_hash n = Inr k"
    by auto
  obtain r st1 where bsc: "breakdown_service_cost env n a sd ed st = (r, st1)"
    by (cases "breakdown_service_cost env n a sd ed st")
  have "\<exists>v. r = Inr v"
  proof (cases r)
    case (Inl e)
    with bsc have "fst (breakdown_service_cost env n a sd ed st) = Inl e" by simp
    then have "get_cost_and_usage env (calls st) (request n a sd ed) = Inl e \<and> \<not> derives_Exception e"
      by (simp add: bsc_raises)
    with assms(2) show ?thesis by blast
  next
    case (Inr v)
    then show ?thesis by blast
  qed
  then obtain v where v: "r = Inr v" ..
  from Cons.prems have "\<forall>x\<in>set items. \<exists>n k. py_getitem x ''Service'' = Inr n \<and> py_hash n = Inr k"
    by simp
  from Cons.IH [OF this, of "dict_store k v cb" st1] n k bsc v show ?case
    by (simp add: dict_setitem_def)
qed

subsection \<open>The handler\<close>

lemma lambda_handler_Inr:
  assumes "lambda_handler env event ctxt st = (Inr resp, st')"
  shows "\<exists>text services start_date end_date account_id items report st1.
     py_getitem event ''services'' = Inr text \<and>
     loads env text = Inr services \<and>
     py_getitem event ''start_date'' = Inr start_date \<and>
     py_getitem event ''end_date'' = Inr end_date \<and>
     py_getitem event ''account_id'' = Inr account_id \<and>
     py_iter services = Inr items \<and>
     process_services env account_id start_date end_date items [] st = (Inr report, st1) \<and>
     resp = \<lparr>statusCode = 200, body = dumps (PDict report)\<rparr> \<and>
     st' = st1\<lparr>logged := logged st1 @ [INFO (PDict report)]\<rparr>"
  using assms unfolding lambda_handler_def
  by (auto split: sum.splits prod.splits)

lemma lambda_handler_returns:
  assumes "py_getitem event ''services'' = Inr text"
    and "loads env text = Inr (PList entries)"
    and "py_getitem event ''start_date'' = Inr sd"
    and "py_getitem event ''end_date'' = Inr ed"
    and "py_getitem event ''account_id'' = Inr a"
    and "\<forall>x\<in>set entries. \<exists>n k. py_getitem x ''Service'' = Inr n \<and> py_hash n = Inr k"
    and "\<forall>h r e. get_cost_and_usage env h r = Inl e \<longrightarrow> derives_Exception e"
  shows "\<exists>resp st'. lambda_handler env event ctxt st = (Inr resp, st')"
proof -
  from process_services_returns [OF assms(6,7), of a sd ed "[]" st]
  obtain cb' st1 where "process_services env a sd ed entries [] st = (Inr cb', st1)"
    by blast
  with assms(1-5) show ?thesis
    by (simp add: lambda_handler_def)
qed

lemma handler_report:
  assumes "py_getitem event ''services'' = Inr text"
    and "loads env text = Inr (PList entries)"
    and "lambda_handler env event ctxt st = (Inr resp, st')"
  shows "\<exists>names keys vals report start_date end_date account_id.
     py_getitem event ''start_date'' = Inr start_date \<and>
     py_getitem event ''end_date'' = Inr end_date \<and>
     py_getitem event ''account_id'' = Inr account_id \<and>
     map (\<lambda>x. py_getitem x ''Service'') entries = map Inr names \<and>
     names = map of_key keys \<and>
     length vals = length entries \<and>
     body resp = dumps (PDict report) \<and>
     last (logged st') = INFO (PDict report) \<and>
     calls st' = calls st @ map (\<lambda>n. request n account_id start_date end_date) names \<and>
     set (norm_keys report) = key_norm ` set keys \<and>
     distinct (norm_keys report) \<and>
     (\<forall>i<length entries.
        (\<forall>j. i < j \<and> j < length entries \<longrightarrow> \<not> key_eq (keys ! j) (keys ! i)) \<longrightarrow>
        dict_lookup report (keys ! i) = Some (vals ! i)) \<and>
     (\<forall>i<length entries. \<forall>s::state.
        calls s = take (length (calls st) + i) (calls st') \<longrightarrow>
        fst (breakdown_service_cost env (names ! i) account_id start_date end_date s) =
          Inr (vals ! i))"
proof -
  from lambda_handler_Inr [OF assms(3)] assms(1,2)
  obtain sd ed a report st1 where
    ev: "py_getitem event ''start_date'' = Inr sd" "py_getitem event ''end_date'' = Inr ed"
        "py_getitem event ''account_id'' = Inr a"
    and loop: "process_services env a sd ed entries [] st = (Inr report, st1)"
    and resp: "resp = \<lparr>statusCode = 200, body = dumps (PDict report)\<rparr>"
    and st': "st' = st1\<lparr>logged := logged st1 @ [INFO (PDict report)]\<rparr>"
    by auto
  from process_services_Inr [OF loop] obtain names keys vals where
    L: "map (\<lambda>x. py_getitem x ''Service'') entries = map Inr names"
       "map py_hash names = map Inr keys"
       "length vals = length entries"
       "calls st1 = calls st @ map (\<lambda>n. request n a sd ed) names"
       "report = fold (\<lambda>(k, v). dict_store k v) (zip keys vals) []"
       "\<forall>i<length entries. \<forall>s::state.
          calls s = calls st @ map (\<lambda>n. request n a sd ed) (take i names) \<longrightarrow>
          fst (breakdown_service_cost env (names ! i) a sd ed s) = Inr (vals ! i)"
    by blast
  from L(1) have len_names: "length names = length entries"
    by (metis length_map)
  from L(2) have len_keys: "length keys = length names"
    by (metis length_map)
  have names_keys: "names = map of_key keys"
  proof (rule nth_equalityI)
    show "length names = length (map of_key keys)" using len_keys by simp
  next
    fix i assume i: "i < length names"
    from L(2) have "map py_hash names ! i = map Inr keys ! i" by simp
    with i len_keys have "py_hash (names ! i) = Inr (keys ! i)" by simp
    then have "names ! i = of_key (keys ! i)" by (rule py_hash_of_key)
    with i len_keys show "names ! i = map of_key keys ! i" by simp
  qed
  have fst_zip: "map fst (zip keys vals) = keys"
    using len_keys len_names L(3) by simp
  have keys_set: "set (norm_keys report) = key_norm ` set keys"
    unfolding L(5) fold_store_keys fst_zip by simp
  have dist: "distinct (norm_keys report)"
    unfolding L(5) by (rule fold_store_distinct) simp
  have lastwins: "\<forall>i<length entries.
        (\<forall>j. i < j \<and> j < length entries \<longrightarrow> \<not> key_eq (keys ! j) (keys ! i)) \<longrightarrow>
        dict_lookup report (keys ! i) = Some (vals ! i)"
  proof (intro allI impI)
    fix i assume i: "i < length entries"
      and later: "\<forall>j. i < j \<and> j < length entries \<longrightarrow> \<not> key_eq (keys ! j) (keys ! i)"
    have len_zip: "length (zip keys vals) = length entries"
      using len_keys len_names L(3) by simp
    have "dict_lookup (fold (\<lambda>(k, v). dict_store k v) (zip keys vals) [])
            (fst (zip keys vals ! i)) = Some (snd (zip keys vals ! i))"
    proof (rule fold_store_last)
      show "i < length (zip keys vals)" using i len_zip by simp
      show "\<forall>j. i < j \<and> j < length (zip keys vals) \<longrightarrow>
              \<not> key_eq (fst (zip keys vals ! j)) (fst (zip keys vals ! i))"
        using later i len_zip len_keys len_names L(3) by simp
    qed
    with i len_keys len_names L(3) L(5) show "dict_lookup report (keys ! i) = Some (vals ! i)"
      by simp
  qed
  have results: "\<forall>i<length entries. \<forall>s::state.
        calls s = take (length (calls st) + i) (calls st') \<longrightarrow>
        fst (breakdown_service_cost env (names ! i) a sd ed s) = Inr (vals ! i)"
  proof (intro allI impI)
    fix i and s :: state
    assume i: "i < length entries"
      and s: "calls s = take (length (calls st) + i) (calls st')"
    have "calls st' = calls st @ map (\<lambda>n. request n a sd ed) names"
      using st' L(4) by simp
    then have "take (length (calls st) + i) (calls st') =
               calls st @ map (\<lambda>n. request n a sd ed) (take i names)"
      by (simp add: take_map)
    with s L(6) i show "fst (breakdown_service_cost env (names ! i) a sd ed s) = Inr (vals ! i)"
      by simp
  qed
  have logged: "last (logged st') = INFO (PDict report)"
    using st' by simp
  have body: "body resp = dumps (PDict report)"
    using resp by simp
  have trace: "calls st' = calls st @ map (\<lambda>n. request n a sd ed) names"
    using st' L(4) by simp
  show ?thesis
    apply (rule exI [of _ names])
    apply (rule exI [of _ keys])
    apply (rule exI [of _ vals])
    apply (rule exI [of _ report])
    apply (rule exI [of _ sd])
    apply (rule exI [of _ ed])
    apply (rule exI [of _ a])
    apply (intro conjI)
    apply (fact ev(1))
    apply (fact ev(2))
    apply (fact ev(3))
    apply (fact L(1))
    apply (fact names_keys)
    apply (fact L(3))
    apply (fact body)
    apply (fact logged)
    apply (fact trace)
    apply (fact keys_set)
    apply (fact dist)
    apply (fact lastwins)
    apply (fact results)
    done
qed

subsection \<open>The example environment\<close>

lemmas example_defs = example_env_def example_loads_def example_api_def example_event_def
  example_documents_def ec2_and_s3_def ec2_twice_def entry_without_service_def idle_def
  throttled_def

lemma loads_empty: "example_loads (PStr ''[]'') = Inr (PList [])"
  by (simp add: example_defs)

lemma loads_ec2_and_s3: "example_loads (PStr (dumps ec2_and_s3)) = Inr ec2_and_s3"
  by (simp add: example_defs json_string_def json_char_def)

lemma loads_ec2_twice: "example_loads (PStr (dumps ec2_twice)) = Inr ec2_twice"
  by (simp add: example_defs json_string_def json_char_def)

lemma loads_entry_without_service:
  "example_loads (PStr (dumps entry_without_service)) = Inr entry_without_service"
  by (simp add: example_defs json_string_def json_char_def)

lemma loads_invalid:
  "example_loads (PStr ''not valid json'') =
     Inl (Exc True ''JSONDecodeError'' ''Expecting value: line 1 column 1 (char 0)'')"
  by (simp add: example_defs json_string_def json_char_def)

lemma example_event_items:
  "py_getitem (example_event text) ''services'' = Inr text"
  "py_getitem (example_event text) ''start_date'' = Inr (PStr ''2024-01-01'')"
  "py_getitem (example_event text) ''end_date'' = Inr (PStr ''2024-01-08'')"
  "py_getitem (example_event text) ''account_id'' = Inr (PStr ''123456789012'')"
  by (simp_all add: example_event_def dict_getitem_def key_eq_def)

lemma example_env_sel:
  "loads example_env = example_loads" "get_cost_and_usage example_env = example_api"
  by (simp_all add: example_env_def)

lemma api_s3:
  "get_cost_and_usage example_env (calls idle)
     (request (PStr ''Amazon S3'') (PStr ''123456789012'') (PStr ''2024-01-01'')
        (PStr ''2024-01-08'')) = Inl throttled"
  by (simp add: example_env_sel example_api_def)

lemma api_glacier:
  "get_cost_and_usage example_env (calls idle)
     (request (PStr ''Amazon Glacier'') (PStr ''123456789012'') (PStr ''2024-01-01'')
        (PStr ''2024-01-08'')) = Inr [(KStr ''ResultsByTime'', PList [])]"
  by (simp add: example_env_sel example_api_def request_def)

lemma run_ec2_and_s3:
  "lambda_handler example_env (example_event (PStr (dumps ec2_and_s3))) () idle =
     (Inr \<lparr>statusCode = 200,
           body = dumps (PDict [
             (KStr ''Amazon EC2'',
              PList [PDict [(KStr ''Groups'', PList []), (KStr ''Estimated'', PBool True)]]),
             (KStr ''Amazon S3'', PNone)])\<rparr>,
      \<lparr>calls = [
         request (PStr ''Amazon EC2'') (PStr ''123456789012'') (PStr ''2024-01-01'')
           (PStr ''2024-01-08''),
         request (PStr ''Amazon S3'') (PStr ''123456789012'') (PStr ''2024-01-01'')
           (PStr ''2024-01-08'')],
       logged = [
         ERROR (''Error fetching cost breakdown for Amazon S3: '' @ str_text throttled),
         INFO (PDict [
           (KStr ''Amazon EC2'',
            PList [PDict [(KStr ''Groups'', PList []), (KStr ''Estimated'', PBool True)]]),
           (KStr ''Amazon S3'', PNone)])]\<rparr>)"
  apply (simp only: lambda_handler_def example_event_items sum.case example_env_sel
      loads_ec2_and_s3)
  by (simp add: ec2_and_s3_def breakdown_service_cost_def example_env_sel example_api_def
      request_def dict_getitem_def dict_setitem_def key_eq_def idle_def throttled_def Let_def)

lemma loop_ec2_and_s3:
  "process_services example_env (PStr ''123456789012'') (PStr ''2024-01-01'') (PStr ''2024-01-08'')
     [PDict [(KStr ''Service'', PStr ''Amazon EC2'')],
      PDict [(KStr ''Service'', PStr ''Amazon S3'')]] [] idle =
   (Inr [(KStr ''Amazon EC2'',
          PList [PDict [(KStr ''Groups'', PList []), (KStr ''Estimated'', PBool True)]]),
         (KStr ''Amazon S3'', PNone)],
    \<lparr>calls = [
       request (PStr ''Amazon EC2'') (PStr ''123456789012'') (PStr ''2024-01-01'')
         (PStr ''2024-01-08''),
       request (PStr ''Amazon S3'') (PStr ''123456789012'') (PStr ''2024-01-01'')
         (PStr ''2024-01-08'')],
     logged = [
       ERROR (''Error fetching cost breakdown for Amazon S3: '' @ str_text throttled)]\<rparr>)"
  by (simp add: breakdown_service_cost_def example_env_sel example_api_def
      request_def dict_getitem_def dict_setitem_def key_eq_def idle_def throttled_def Let_def)

lemma run_ec2_twice:
  "lambda_handler example_env (example_event (PStr (dumps ec2_twice))) () idle =
     (Inr \<lparr>statusCode = 200,
           body = dumps (PDict [
             (KStr ''Amazon EC2'',
              PList [PDict [(KStr ''Groups'', PList []), (KStr ''Estimated'', PBool False)]])])\<rparr>,
      \<lparr>calls = [
         request (PStr ''Amazon EC2'') (PStr ''123456789012'') (PStr ''2024-01-01'')
           (PStr ''2024-01-08''),
         request (PStr ''Amazon EC2'') (PStr ''123456789012'') (PStr ''2024-01-01'')
           (PStr ''2024-01-08'')],
       logged = [
         INFO (PDict [
           (KStr ''Amazon EC2'',
            PList [PDict [(KStr ''Groups'', PList []), (KStr ''Estimated'', PBool False)]])])]\<rparr>)"
  apply (simp only: lambda_handler_def example_event_items sum.case example_env_sel
      loads_ec2_twice)
  by (simp add: ec2_twice_def breakdown_service_cost_def example_env_sel example_api_def
      request_def dict_getitem_def dict_setitem_def key_eq_def idle_def throttled_def Let_def)

lemma run_ec2_twice_calls:
  "\<exists>resp st'.
     lambda_handler example_env (example_event (PStr (dumps ec2_twice))) () idle = (Inr resp, st') \<and>
     calls st' = [
       request (PStr ''Amazon EC2'') (PStr ''123456789012'') (PStr ''2024-01-01'')
         (PStr ''2024-01-08''),
       request (PStr ''Amazon EC2'') (PStr ''123456789012'') (PStr ''2024-01-01'')
         (PStr ''2024-01-08'')]"
  using run_ec2_twice by simp

lemma loads_ec2_twice_entries:
  "loads example_env (PStr (dumps ec2_twice)) =
      Inr (PList [PDict [(KStr ''Service'', PStr ''Amazon EC2'')],
                  PDict [(KStr ''Service'', PStr ''Amazon EC2'')]])"
  using loads_ec2_twice by (simp add: example_env_sel ec2_twice_def)

lemma second_ec2_call:
  "breakdown_service_cost example_env (PStr ''Amazon EC2'') (PStr ''123456789012'')
     (PStr ''2024-01-01'') (PStr ''2024-01-08'')
     \<lparr>calls = [request (PStr ''Amazon EC2'') (PStr ''123456789012'') (PStr ''2024-01-01'')
                 (PStr ''2024-01-08'')], logged = []\<rparr> =
   (Inr (PList [PDict [(KStr ''Groups'', PList []), (KStr ''Estimated'', PBool False)]]),
    \<lparr>calls = [request (PStr ''Amazon EC2'') (PStr ''123456789012'') (PStr ''2024-01-01'')
                 (PStr ''2024-01-08''),
               request (PStr ''Amazon EC2'') (PStr ''123456789012'') (PStr ''2024-01-01'')
                 (PStr ''2024-01-08'')], logged = []\<rparr>)"
  by (simp add: breakdown_service_cost_def example_env_sel example_api_def request_def
      dict_getitem_def key_eq_def Let_def)

section \<open>The claims\<close>

text \<open>
  C6. Every call of \<^verbatim>\<open>breakdown_service_cost\<close>, whatever comes back, sends exactly one
  request to the billing service: the time period from \<^verbatim>\<open>start_date\<close> to \<^verbatim>\<open>end_date\<close>,
  daily granularity, the metric \<^verbatim>\<open>UnblendedCost\<close>, grouped by the dimension
  \<^verbatim>\<open>USAGE_TYPE\<close>, filtered by the conjunction of the dimension \<^verbatim>\<open>SERVICE\<close> with the one
  value \<^verbatim>\<open>service\<close> and the dimension \<^verbatim>\<open>LINKED_ACCOUNT\<close> with the one value
  \<^verbatim>\<open>account_id\<close>.
\<close>

theorem breakdown_service_cost_one_query:
  "calls (snd (breakdown_service_cost env service account_id start_date end_date st)) =
   calls st @ [PDict [
     (KStr ''TimePeriod'', PDict [(KStr ''Start'', start_date), (KStr ''End'', end_date)]),
     (KStr ''Granularity'', PStr ''DAILY''),
     (KStr ''Metrics'', PList [PStr ''UnblendedCost'']),
     (KStr ''GroupBy'', PList [PDict [(KStr ''Type'', PStr ''DIMENSION''),
                                      (KStr ''Key'', PStr ''USAGE_TYPE'')]]),
     (KStr ''Filter'', PDict [(KStr ''And'', PList [
        PDict [(KStr ''Dimensions'',
                PDict [(KStr ''Key'', PStr ''SERVICE''), (KStr ''Values'', PList [service])])],
        PDict [(KStr ''Dimensions'',
                PDict [(KStr ''Key'', PStr ''LINKED_ACCOUNT''),
                       (KStr ''Values'', PList [account_id])])]])])]]"
  by (simp add: bsc_calls request_def)

text \<open>
  C2. If the call to the billing service raises an exception that derives from
  \<^verbatim>\<open>Exception\<close>, as every error of the billing client does, \<^verbatim>\<open>breakdown_service_cost\<close>
  returns \<^verbatim>\<open>None\<close> and raises nothing; it has sent its one request and logged one error
  record, whose text holds the service name and \<^verbatim>\<open>str(e)\<close>.
\<close>

theorem breakdown_service_cost_catches:
  assumes "get_cost_and_usage env (calls st) (request service account_id start_date end_date) = Inl e"
    and "derives_Exception e"
  shows "breakdown_service_cost env service account_id start_date end_date st =
     (Inr PNone,
      st\<lparr>calls := calls st @ [request service account_id start_date end_date],
         logged := logged st @
           [ERROR (''Error fetching cost breakdown for '' @ py_str service @ '': '' @ str_text e)]\<rparr>)"
  using assms by (simp add: breakdown_service_cost_def Let_def)

theorem breakdown_service_cost_catches_witness:
  "get_cost_and_usage example_env (calls idle)
     (request (PStr ''Amazon S3'') (PStr ''123456789012'') (PStr ''2024-01-01'')
        (PStr ''2024-01-08'')) = Inl throttled \<and>
   derives_Exception throttled \<and>
   breakdown_service_cost example_env (PStr ''Amazon S3'') (PStr ''123456789012'')
     (PStr ''2024-01-01'') (PStr ''2024-01-08'') idle =
   (Inr PNone,
    \<lparr>calls = [request (PStr ''Amazon S3'') (PStr ''123456789012'')
                (PStr ''2024-01-01'') (PStr ''2024-01-08'')],
     logged = [ERROR (''Error fetching cost breakdown for Amazon S3: '' @ str_text throttled)]\<rparr>)"
proof -
  have d: "derives_Exception throttled" by (simp add: throttled_def)
  from breakdown_service_cost_catches [OF api_s3 d] api_s3 d show ?thesis
    by (simp add: idle_def)
qed

text \<open>
  C7. A query that fails with an exception deriving from \<^verbatim>\<open>Exception\<close> makes
  \<^verbatim>\<open>breakdown_service_cost\<close> return \<^verbatim>\<open>None\<close>, whatever the exception; a query that
  succeeds with an empty \<^verbatim>\<open>ResultsByTime\<close> makes it return the empty list; the two
  returned values differ, and the returned value is all the caller gets.
\<close>

theorem failure_is_null_empty_is_list:
  assumes "get_cost_and_usage env1 (calls st1) (request service1 a1 sd1 ed1) = Inl e"
    and "derives_Exception e"
    and "get_cost_and_usage env2 (calls st2) (request service2 a2 sd2 ed2) = Inr response"
    and "dict_lookup response (KStr ''ResultsByTime'') = Some (PList [])"
  shows "fst (breakdown_service_cost env1 service1 a1 sd1 ed1 st1) = Inr PNone \<and>
         fst (breakdown_service_cost env2 service2 a2 sd2 ed2 st2) = Inr (PList []) \<and>
         fst (breakdown_service_cost env1 service1 a1 sd1 ed1 st1) \<noteq>
         fst (breakdown_service_cost env2 service2 a2 sd2 ed2 st2)"
  using assms by (simp add: breakdown_service_cost_def Let_def dict_getitem_def)

theorem failure_is_null_empty_is_list_witness:
  "derives_Exception throttled \<and>
   dict_lookup [(KStr ''ResultsByTime'', PList [])] (KStr ''ResultsByTime'') = Some (PList []) \<and>
   fst (breakdown_service_cost example_env (PStr ''Amazon S3'') (PStr ''123456789012'')
     (PStr ''2024-01-01'') (PStr ''2024-01-08'') idle) = Inr PNone \<and>
   fst (breakdown_service_cost example_env (PStr ''Amazon Glacier'') (PStr ''123456789012'')
     (PStr ''2024-01-01'') (PStr ''2024-01-08'') idle) = Inr (PList [])"
proof -
  have d: "derives_Exception throttled" by (simp add: throttled_def)
  have l: "dict_lookup [(KStr ''ResultsByTime'', PList [])] (KStr ''ResultsByTime'') =
           Some (PList [])"
    by simp
  from failure_is_null_empty_is_list [OF api_s3 d api_glacier l] d l show ?thesis
    by simp
qed

text \<open>
  C4. Take a run of \<^verbatim>\<open>lambda_handler\<close> that returns, and the entry at position \<open>i\<close> of the
  decoded array, which is the last entry with its service name. If the billing service
  answered the request of that entry (the request at position \<open>i\<close> of this run, sent after
  the requests before it) with a response, then the report holds under that name the
  \<^verbatim>\<open>ResultsByTime\<close> value of the response, as it is.
\<close>

theorem stored_value_is_ResultsByTime:
  assumes "py_getitem event ''services'' = Inr text"
    and "loads env text = Inr (PList entries)"
    and "lambda_handler env event ctxt st = (Inr resp, st')"
    and "i < length entries"
    and "py_getitem (entries ! i) ''Service'' = Inr (of_key key)"
    and "\<forall>j k. i < j \<and> j < length entries \<and>
               py_getitem (entries ! j) ''Service'' = Inr (of_key k) \<longrightarrow> \<not> key_eq k key"
    and "get_cost_and_usage env (take (length (calls st) + i) (calls st'))
           (calls st' ! (length (calls st) + i)) = Inr response"
    and "dict_lookup response (KStr ''ResultsByTime'') = Some results"
  shows "\<exists>report. body resp = dumps (PDict report) \<and> last (logged st') = INFO (PDict report) \<and>
                  dict_lookup report key = Some results"
proof -
  from handler_report [OF assms(1-3)] obtain names keys vals report sd ed a where
    R: "map (\<lambda>x. py_getitem x ''Service'') entries = map Inr names"
       "names = map of_key keys"
       "length vals = length entries"
       "body resp = dumps (PDict report)"
       "last (logged st') = INFO (PDict report)"
       "calls st' = calls st @ map (\<lambda>n. request n a sd ed) names"
       "\<forall>i<length entries.
          (\<forall>j. i < j \<and> j < length entries \<longrightarrow> \<not> key_eq (keys ! j) (keys ! i)) \<longrightarrow>
          dict_lookup report (keys ! i) = Some (vals ! i)"
       "\<forall>i<length entries. \<forall>s::state.
          calls s = take (length (calls st) + i) (calls st') \<longrightarrow>
          fst (breakdown_service_cost env (names ! i) a sd ed s) = Inr (vals ! i)"
    by (elim exE conjE)
  from R(1) have len_names: "length names = length entries" by (metis length_map)
  with R(2) have len_keys: "length keys = length entries" by simp
  have nth_entry: "\<And>j. j < length entries \<Longrightarrow>
      py_getitem (entries ! j) ''Service'' = Inr (of_key (keys ! j))"
  proof -
    fix j assume j: "j < length entries"
    from R(1) have "map (\<lambda>x. py_getitem x ''Service'') entries ! j = map Inr names ! j" by simp
    with j len_names R(2) len_keys show "py_getitem (entries ! j) ''Service'' = Inr (of_key (keys ! j))"
      by simp
  qed
  have inj: "\<And>k k'. of_key k = of_key k' \<Longrightarrow> k = k'"
  proof -
    fix k k' show "of_key k = of_key k' \<Longrightarrow> k = k'" by (cases k; cases k') auto
  qed
  from nth_entry [OF assms(4)] assms(5) have key: "keys ! i = key"
    by (simp add: inj)
  have later: "\<forall>j. i < j \<and> j < length entries \<longrightarrow> \<not> key_eq (keys ! j) (keys ! i)"
  proof (intro allI impI)
    fix j assume j: "i < j \<and> j < length entries"
    with nth_entry [of j] assms(6) key show "\<not> key_eq (keys ! j) (keys ! i)" by blast
  qed
  with R(7) assms(4) key have stored: "dict_lookup report key = Some (vals ! i)" by auto
  define s :: state where "s = \<lparr>calls = take (length (calls st) + i) (calls st'), logged = []\<rparr>"
  have calls_s: "calls s = take (length (calls st) + i) (calls st')" by (simp add: s_def)
  with R(8) assms(4)
  have val: "fst (breakdown_service_cost env (names ! i) a sd ed s) = Inr (vals ! i)" by blast
  have req: "calls st' ! (length (calls st) + i) = request (names ! i) a sd ed"
    using R(6) assms(4) len_names by (simp add: nth_append)
  from assms(7) calls_s req
  have "get_cost_and_usage env (calls s) (request (names ! i) a sd ed) = Inr response" by simp
  from bsc_success [OF this assms(8)] val have "vals ! i = results" by simp
  with stored R(4,5) show ?thesis by blast
qed

theorem stored_value_is_ResultsByTime_witness:
  "\<exists>resp st'.
     lambda_handler example_env (example_event (PStr (dumps ec2_twice))) () idle = (Inr resp, st') \<and>
     (\<exists>report. body resp = dumps (PDict report) \<and> last (logged st') = INFO (PDict report) \<and>
        dict_lookup report (KStr ''Amazon EC2'') =
          Some (PList [PDict [(KStr ''Groups'', PList []), (KStr ''Estimated'', PBool False)]]))"
proof -
  from run_ec2_twice_calls obtain resp st' where
    run: "lambda_handler example_env (example_event (PStr (dumps ec2_twice))) () idle =
            (Inr resp, st')"
    and trace: "calls st' = [
       request (PStr ''Amazon EC2'') (PStr ''123456789012'') (PStr ''2024-01-01'')
         (PStr ''2024-01-08''),
       request (PStr ''Amazon EC2'') (PStr ''123456789012'') (PStr ''2024-01-01'')
         (PStr ''2024-01-08'')]"
    by blast
  let ?entries = "[PDict [(KStr ''Service'', PStr ''Amazon EC2'')],
                   PDict [(KStr ''Service'', PStr ''Amazon EC2'')]]"
  let ?response = "[(KStr ''ResultsByTime'',
      PList [PDict [(KStr ''Groups'', PList []), (KStr ''Estimated'', PBool False)]])]"
  have s: "py_getitem (example_event (PStr (dumps ec2_twice))) ''services'' =
      Inr (PStr (dumps ec2_twice))"
    by (rule example_event_items)
  have i: "(1::nat) < length ?entries" by simp
  have entry: "py_getitem (?entries ! 1) ''Service'' = Inr (of_key (KStr ''Amazon EC2''))"
    by (simp add: dict_getitem_def key_eq_def)
  have later: "\<forall>j k. 1 < j \<and> j < length ?entries \<and>
       py_getitem (?entries ! j) ''Service'' = Inr (of_key k) \<longrightarrow> \<not> key_eq k (KStr ''Amazon EC2'')"
  proof (intro allI impI)
    fix j :: nat and k
    assume "1 < j \<and> j < length ?entries \<and>
       py_getitem (?entries ! j) ''Service'' = Inr (of_key k)"
    then have "1 < j \<and> j < 2" by simp
    then have False by linarith
    then show "\<not> key_eq k (KStr ''Amazon EC2'')" ..
  qed
  have api: "get_cost_and_usage example_env (take (length (calls idle) + 1) (calls st'))
       (calls st' ! (length (calls idle) + 1)) = Inr ?response"
    by (simp add: trace idle_def example_env_sel example_api_def request_def)
  have look: "dict_lookup ?response (KStr ''ResultsByTime'') =
      Some (PList [PDict [(KStr ''Groups'', PList []), (KStr ''Estimated'', PBool False)]])"
    by simp
  from stored_value_is_ResultsByTime [OF s loads_ec2_twice_entries run i entry later api look] run
  show ?thesis by blast
qed

text \<open>
  C5. Whenever \<^verbatim>\<open>lambda_handler\<close> returns, the event has its four fields, the
  \<^verbatim>\<open>services\<close> field has decoded, and the loop over the decoded items, started on the
  empty dictionary with the other three fields of the event, has ended with a report. What
  is returned is then exactly the status code 200 with, as body, the JSON text of that
  report, which has also been logged last. No other status code is returned on any input.
\<close>

theorem lambda_handler_response:
  assumes "lambda_handler env event ctxt st = (Inr resp, st')"
  shows "\<exists>text services start_date end_date account_id items report st1.
     py_getitem event ''services'' = Inr text \<and>
     loads env text = Inr services \<and>
     py_getitem event ''start_date'' = Inr start_date \<and>
     py_getitem event ''end_date'' = Inr end_date \<and>
     py_getitem event ''account_id'' = Inr account_id \<and>
     py_iter services = Inr items \<and>
     process_services env account_id start_date end_date items [] st = (Inr report, st1) \<and>
     st' = st1\<lparr>logged := logged st1 @ [INFO (PDict report)]\<rparr> \<and>
     resp = \<lparr>statusCode = 200, body = dumps (PDict report)\<rparr>"
  using assms unfolding lambda_handler_def
  by (auto split: sum.splits prod.splits)

theorem lambda_handler_response_witness:
  "\<exists>resp st'. lambda_handler example_env (example_event (PStr (dumps ec2_and_s3))) () idle =
      (Inr resp, st') \<and>
      resp = \<lparr>statusCode = 200,
              body = dumps (PDict [
                (KStr ''Amazon EC2'',
                 PList [PDict [(KStr ''Groups'', PList []), (KStr ''Estimated'', PBool True)]]),
                (KStr ''Amazon S3'', PNone)])\<rparr>"
proof -
  let ?ev = "example_event (PStr (dumps ec2_and_s3))"
  obtain resp st' where run: "lambda_handler example_env ?ev () idle = (Inr resp, st')"
    using run_ec2_and_s3 by blast
  from lambda_handler_response [OF run]
  obtain doc services sd ed a items report st1 where
    R: "py_getitem ?ev ''services'' = Inr doc"
       "loads example_env doc = Inr services"
       "py_getitem ?ev ''start_date'' = Inr sd"
       "py_getitem ?ev ''end_date'' = Inr ed"
       "py_getitem ?ev ''account_id'' = Inr a"
       "py_iter services = Inr items"
       "process_services example_env a sd ed items [] idle = (Inr report, st1)"
       "st' = st1\<lparr>logged := logged st1 @ [INFO (PDict report)]\<rparr>"
       "resp = \<lparr>statusCode = 200, body = dumps (PDict report)\<rparr>"
    by (elim exE conjE)
  from R(1) have doc: "doc = PStr (dumps ec2_and_s3)"
    by (simp add: example_event_items)
  from R(3-5) have ev: "sd = PStr ''2024-01-01''" "ed = PStr ''2024-01-08''"
      "a = PStr ''123456789012''"
    by (simp_all add: example_event_items)
  from R(2) doc have services: "services = ec2_and_s3"
    by (simp add: example_env_sel loads_ec2_and_s3)
  from R(6) services have items: "items = [PDict [(KStr ''Service'', PStr ''Amazon EC2'')],
      PDict [(KStr ''Service'', PStr ''Amazon S3'')]]"
    by (simp add: ec2_and_s3_def)
  from R(7) have "report = [(KStr ''Amazon EC2'',
          PList [PDict [(KStr ''Groups'', PList []), (KStr ''Estimated'', PBool True)]]),
         (KStr ''Amazon S3'', PNone)]"
    unfolding ev items loop_ec2_and_s3 by simp
  with R(9) have "resp = \<lparr>statusCode = 200,
              body = dumps (PDict [
                (KStr ''Amazon EC2'',
                 PList [PDict [(KStr ''Groups'', PList []), (KStr ''Estimated'', PBool True)]]),
                (KStr ''Amazon S3'', PNone)])\<rparr>"
    by simp
  with run show ?thesis by blast
qed

text \<open>
  C9. If the \<^verbatim>\<open>services\<close> field decodes to the empty array, \<^verbatim>\<open>lambda_handler\<close> sends no
  request; and on an event that has its three other fields, it returns the status code 200
  with the body \<^verbatim>\<open>{}\<close>, having logged the empty report.
\<close>

theorem empty_services:
  assumes "py_getitem event ''services'' = Inr text"
    and "loads env text = Inr (PList [])"
  shows "calls (snd (lambda_handler env event ctxt st)) = calls st \<and>
     ((\<exists>sd ed a. py_getitem event ''start_date'' = Inr sd \<and> py_getitem event ''end_date'' = Inr ed \<and>
                 py_getitem event ''account_id'' = Inr a) \<longrightarrow>
      lambda_handler env event ctxt st =
        (Inr \<lparr>statusCode = 200, body = ''{}''\<rparr>, st\<lparr>logged := logged st @ [INFO (PDict [])]\<rparr>))"
  using assms unfolding lambda_handler_def
  by (auto split: sum.splits)

theorem empty_services_witness:
  "py_getitem (example_event (PStr ''[]'')) ''services'' = Inr (PStr ''[]'') \<and>
   loads example_env (PStr ''[]'') = Inr (PList []) \<and>
   calls (snd (lambda_handler example_env (example_event (PStr ''[]'')) () idle)) = calls idle \<and>
   lambda_handler example_env (example_event (PStr ''[]'')) () idle =
     (Inr \<lparr>statusCode = 200, body = ''{}''\<rparr>, idle\<lparr>logged := logged idle @ [INFO (PDict [])]\<rparr>)"
proof -
  have s: "py_getitem (example_event (PStr ''[]'')) ''services'' = Inr (PStr ''[]'')"
    by (rule example_event_items)
  have l: "loads example_env (PStr ''[]'') = Inr (PList [])"
    by (simp add: example_env_sel loads_empty)
  from empty_services [OF s l, of "()" idle] s l show ?thesis
    by (simp add: example_event_items)
qed

text \<open>
  C10. On an event without a \<^verbatim>\<open>services\<close> key \<^verbatim>\<open>lambda_handler\<close> raises the
  \<^verbatim>\<open>KeyError\<close> of that key. When \<^verbatim>\<open>services\<close> is there and does not decode, it raises
  the decoder's exception, whatever else is missing. When \<^verbatim>\<open>services\<close> decodes and one of
  \<^verbatim>\<open>start_date\<close>, \<^verbatim>\<open>end_date\<close>, \<^verbatim>\<open>account_id\<close> is missing, it raises the \<^verbatim>\<open>KeyError\<close>
  of the first missing one, in this order. In each case nothing has been sent or logged and
  there is no response.
\<close>

theorem missing_event_key:
  "(dict_lookup d (KStr ''services'') = None \<longrightarrow>
      lambda_handler env (PDict d) ctxt st = (Inl (KeyError ''services''), st)) \<and>
   (\<forall>text e. dict_lookup d (KStr ''services'') = Some text \<and> loads env text = Inl e \<longrightarrow>
      lambda_handler env (PDict d) ctxt st = (Inl e, st)) \<and>
   (\<forall>text services k. dict_lookup d (KStr ''services'') = Some text \<and> loads env text = Inr services \<and>
      find (\<lambda>k. dict_lookup d (KStr k) = None) [''start_date'', ''end_date'', ''account_id''] = Some k \<longrightarrow>
      lambda_handler env (PDict d) ctxt st = (Inl (KeyError k), st))"
  unfolding lambda_handler_def
  by (auto simp: dict_getitem_def split: sum.splits option.splits if_splits)

theorem missing_event_key_witness:
  "dict_lookup ([] :: (pykey \<times> pyval) list) (KStr ''services'') = None \<and>
   lambda_handler example_env (PDict []) () idle = (Inl (KeyError ''services''), idle) \<and>
   loads example_env (PStr ''[]'') = Inr (PList []) \<and>
   lambda_handler example_env (PDict [(KStr ''services'', PStr ''[]'')]) () idle =
     (Inl (KeyError ''start_date''), idle) \<and>
   lambda_handler example_env
     (PDict [(KStr ''services'', PStr ''[]''), (KStr ''start_date'', PStr ''2024-01-01''),
             (KStr ''account_id'', PStr ''123456789012'')]) () idle =
     (Inl (KeyError ''end_date''), idle) \<and>
   lambda_handler example_env (PDict [(KStr ''services'', PStr ''not valid json'')]) () idle =
     (Inl (Exc True ''JSONDecodeError'' ''Expecting value: line 1 column 1 (char 0)''), idle)"
proof -
  have l: "loads example_env (PStr ''[]'') = Inr (PList [])"
    by (simp add: example_env_sel loads_empty)
  have bad: "loads example_env (PStr ''not valid json'') =
      Inl (Exc True ''JSONDecodeError'' ''Expecting value: line 1 column 1 (char 0)'')"
    by (simp add: example_env_sel loads_invalid)
  have a: "lambda_handler example_env (PDict []) () idle = (Inl (KeyError ''services''), idle)"
    using missing_event_key [of "[]" example_env "()" idle] by simp
  have b: "lambda_handler example_env (PDict [(KStr ''services'', PStr ''[]'')]) () idle =
     (Inl (KeyError ''start_date''), idle)"
    using missing_event_key [of "[(KStr ''services'', PStr ''[]'')]" example_env "()" idle] l
    by (simp add: key_eq_def)
  have c: "lambda_handler example_env
     (PDict [(KStr ''services'', PStr ''[]''), (KStr ''start_date'', PStr ''2024-01-01''),
             (KStr ''account_id'', PStr ''123456789012'')]) () idle =
     (Inl (KeyError ''end_date''), idle)"
    using missing_event_key [of "[(KStr ''services'', PStr ''[]''),
        (KStr ''start_date'', PStr ''2024-01-01''), (KStr ''account_id'', PStr ''123456789012'')]"
        example_env "()" idle] l
    by (simp add: key_eq_def)
  have d: "lambda_handler example_env (PDict [(KStr ''services'', PStr ''not valid json'')]) () idle =
     (Inl (Exc True ''JSONDecodeError'' ''Expecting value: line 1 column 1 (char 0)''), idle)"
    using missing_event_key [of "[(KStr ''services'', PStr ''not valid json'')]"
        example_env "()" idle] bad
    by (simp add: key_eq_def)
  from a b c d l show ?thesis by simp
qed

text \<open>
  C3. If decoding the \<^verbatim>\<open>services\<close> field raises, \<^verbatim>\<open>lambda_handler\<close> raises that same
  exception and has changed nothing. If the field decodes to an array with an entry that is
  an object without a \<^verbatim>\<open>Service\<close> key, \<^verbatim>\<open>lambda_handler\<close> raises too. In both cases
  there is no response: no status code and no report, partial or empty.
\<close>

theorem malformed_services_raises:
  assumes "py_getitem event ''services'' = Inr text"
    and "(\<exists>e. loads env text = Inl e) \<or>
         (\<exists>entries d. loads env text = Inr (PList entries) \<and> PDict d \<in> set entries \<and>
                      dict_lookup d (KStr ''Service'') = None)"
  shows "(\<forall>e. loads env text = Inl e \<longrightarrow> lambda_handler env event ctxt st = (Inl e, st)) \<and>
         (\<exists>e st'. lambda_handler env event ctxt st = (Inl e, st'))"
proof -
  have first: "\<forall>e. loads env text = Inl e \<longrightarrow> lambda_handler env event ctxt st = (Inl e, st)"
    using assms(1) by (simp add: lambda_handler_def)
  have second: "\<exists>e st'. lambda_handler env event ctxt st = (Inl e, st')"
  proof (cases "loads env text")
    case (Inl e)
    with first show ?thesis by blast
  next
    case (Inr services)
    with assms(2) obtain entries d where
      entries: "services = PList entries" "PDict d \<in> set entries"
        "dict_lookup d (KStr ''Service'') = None"
      by auto
    then have bad: "py_getitem (PDict d) ''Service'' = Inl (KeyError ''Service'')"
      by (simp add: dict_getitem_def)
    show ?thesis
    proof (cases "lambda_handler env event ctxt st")
      case (Pair r st')
      show ?thesis
      proof (cases r)
        case (Inl e)
        with Pair show ?thesis by blast
      next
        case (Inr resp)
        from lambda_handler_Inr [OF Pair [unfolded Inr]] \<open>loads env text = Inr services\<close>
          assms(1) entries(1)
        obtain a sd ed report st1 where
          "process_services env a sd ed entries [] st = (Inr report, st1)"
          by auto
        moreover from process_services_bad_entry [OF entries(2) bad]
        obtain e st2 where "process_services env a sd ed entries [] st = (Inl e, st2)"
          by blast
        ultimately show ?thesis by simp
      qed
    qed
  qed
  from first second show ?thesis by blast
qed

theorem malformed_services_raises_witness:
  "loads example_env (PStr ''not valid json'') =
     Inl (Exc True ''JSONDecodeError'' ''Expecting value: line 1 column 1 (char 0)'') \<and>
   lambda_handler example_env (example_event (PStr ''not valid json'')) () idle =
     (Inl (Exc True ''JSONDecodeError'' ''Expecting value: line 1 column 1 (char 0)''), idle) \<and>
   loads example_env (PStr (dumps entry_without_service)) = Inr entry_without_service \<and>
   (\<exists>e st'. lambda_handler example_env
      (example_event (PStr (dumps entry_without_service))) () idle = (Inl e, st'))"
proof -
  have bad: "loads example_env (PStr ''not valid json'') =
      Inl (Exc True ''JSONDecodeError'' ''Expecting value: line 1 column 1 (char 0)'')"
    by (simp add: example_env_sel loads_invalid)
  have s1: "py_getitem (example_event (PStr ''not valid json'')) ''services'' =
      Inr (PStr ''not valid json'')"
    by (rule example_event_items)
  have h1: "(\<exists>e. loads example_env (PStr ''not valid json'') = Inl e) \<or>
         (\<exists>entries d. loads example_env (PStr ''not valid json'') = Inr (PList entries) \<and>
            PDict d \<in> set entries \<and> dict_lookup d (KStr ''Service'') = None)"
    using bad by simp
  from malformed_services_raises [OF s1 h1, of "()" idle] bad
  have a: "lambda_handler example_env (example_event (PStr ''not valid json'')) () idle =
     (Inl (Exc True ''JSONDecodeError'' ''Expecting value: line 1 column 1 (char 0)''), idle)"
    by simp
  have l2: "loads example_env (PStr (dumps entry_without_service)) = Inr entry_without_service"
    by (simp add: example_env_sel loads_entry_without_service)
  have s2: "py_getitem (example_event (PStr (dumps entry_without_service))) ''services'' =
      Inr (PStr (dumps entry_without_service))"
    by (rule example_event_items)
  have "loads example_env (PStr (dumps entry_without_service)) =
          Inr (PList [PDict [(KStr ''Service'', PStr ''Amazon EC2'')],
                      PDict [(KStr ''Name'', PStr ''Amazon S3'')]]) \<and>
        PDict [(KStr ''Name'', PStr ''Amazon S3'')] \<in>
          set [PDict [(KStr ''Service'', PStr ''Amazon EC2'')],
               PDict [(KStr ''Name'', PStr ''Amazon S3'')]] \<and>
        dict_lookup [(KStr ''Name'', PStr ''Amazon S3'')] (KStr ''Service'') = None"
    using l2 by (simp add: entry_without_service_def key_eq_def)
  then have h2: "(\<exists>e. loads example_env (PStr (dumps entry_without_service)) = Inl e) \<or>
         (\<exists>entries d. loads example_env (PStr (dumps entry_without_service)) = Inr (PList entries) \<and>
            PDict d \<in> set entries \<and> dict_lookup d (KStr ''Service'') = None)"
    by blast
  from malformed_services_raises [OF s2 h2, of "()" idle]
  have b: "\<exists>e st'. lambda_handler example_env
      (example_event (PStr (dumps entry_without_service))) () idle = (Inl e, st')"
    by blast
  from bad a l2 b show ?thesis by blast
qed



text \<open>
  C1. Take an event whose \<^verbatim>\<open>services\<close> field decodes to an array, and a run of
  \<^verbatim>\<open>lambda_handler\<close> on it that returns. Every entry of the array then has a \<^verbatim>\<open>Service\<close>
  value; the report that is logged and whose JSON text is the body has exactly these values
  as keys, each once, keys being compared as Python compares them (\<open>key_norm\<close>); failed
  queries are keys like the others. Under a name the report holds what the call for the last
  entry with that name returned: the value of \<^verbatim>\<open>breakdown_service_cost\<close> run after the
  requests of the entries before it.
\<close>

theorem report_keys:
  assumes "py_getitem event ''services'' = Inr text"
    and "loads env text = Inr (PList entries)"
    and "lambda_handler env event ctxt st = (Inr resp, st')"
  shows "\<exists>names keys vals report start_date end_date account_id.
     py_getitem event ''start_date'' = Inr start_date \<and>
     py_getitem event ''end_date'' = Inr end_date \<and>
     py_getitem event ''account_id'' = Inr account_id \<and>
     map (\<lambda>x. py_getitem x ''Service'') entries = map Inr names \<and>
     names = map of_key keys \<and>
     length vals = length entries \<and>
     body resp = dumps (PDict report) \<and>
     last (logged st') = INFO (PDict report) \<and>
     set (norm_keys report) = key_norm ` set keys \<and>
     distinct (norm_keys report) \<and>
     (\<forall>i<length entries.
        (\<forall>j. i < j \<and> j < length entries \<longrightarrow> \<not> key_eq (keys ! j) (keys ! i)) \<longrightarrow>
        dict_lookup report (keys ! i) = Some (vals ! i)) \<and>
     (\<forall>i<length entries. \<forall>s::state.
        calls s = take (length (calls st) + i) (calls st') \<longrightarrow>
        fst (breakdown_service_cost env (names ! i) account_id start_date end_date s) =
          Inr (vals ! i))"
proof -
  from handler_report [OF assms] obtain names keys vals report sd ed a where
    R: "py_getitem event ''start_date'' = Inr sd"
    "py_getitem event ''end_date'' = Inr ed"
    "py_getitem event ''account_id'' = Inr a"
    "map (\<lambda>x. py_getitem x ''Service'') entries = map Inr names"
    "names = map of_key keys"
    "length vals = length entries"
    "body resp = dumps (PDict report)"
    "last (logged st') = INFO (PDict report)"
    "calls st' = calls st @ map (\<lambda>n. request n a sd ed) names"
    "set (norm_keys report) = key_norm ` set keys"
    "distinct (norm_keys report)"
    "\<forall>i<length entries.
        (\<forall>j. i < j \<and> j < length entries \<longrightarrow> \<not> key_eq (keys ! j) (keys ! i)) \<longrightarrow>
        dict_lookup report (keys ! i) = Some (vals ! i)"
    "\<forall>i<length entries. \<forall>s::state.
        calls s = take (length (calls st) + i) (calls st') \<longrightarrow>
        fst (breakdown_service_cost env (names ! i) a sd ed s) = Inr (vals ! i)"
    by (elim exE conjE)
  show ?thesis
    apply (rule exI [of _ names])
    apply (rule exI [of _ keys])
    apply (rule exI [of _ vals])
    apply (rule exI [of _ report])
    apply (rule exI [of _ sd])
    apply (rule exI [of _ ed])
    apply (rule exI [of _ a])
    apply (intro conjI)
    apply (fact R(1))
    apply (fact R(2))
    apply (fact R(3))
    apply (fact R(4))
    apply (fact R(5))
    apply (fact R(6))
    apply (fact R(7))
    apply (fact R(8))
    apply (fact R(10))
    apply (fact R(11))
    apply (fact R(12))
    apply (fact R(13))
    done
qed

theorem report_keys_witness:
  "\<exists>resp st'.
     lambda_handler example_env (example_event (PStr (dumps ec2_twice))) () idle = (Inr resp, st') \<and>
     (\<exists>report. body resp = dumps (PDict report) \<and> last (logged st') = INFO (PDict report) \<and>
        set (norm_keys report) = {KStr ''Amazon EC2''} \<and> distinct (norm_keys report) \<and>
        dict_lookup report (KStr ''Amazon EC2'') =
          Some (PList [PDict [(KStr ''Groups'', PList []), (KStr ''Estimated'', PBool False)]]))"
proof -
  from run_ec2_twice_calls obtain resp st' where
    run: "lambda_handler example_env (example_event (PStr (dumps ec2_twice))) () idle =
            (Inr resp, st')"
    and trace: "calls st' = [
       request (PStr ''Amazon EC2'') (PStr ''123456789012'') (PStr ''2024-01-01'')
         (PStr ''2024-01-08''),
       request (PStr ''Amazon EC2'') (PStr ''123456789012'') (PStr ''2024-01-01'')
         (PStr ''2024-01-08'')]"
    by blast
  let ?entries = "[PDict [(KStr ''Service'', PStr ''Amazon EC2'')],
                   PDict [(KStr ''Service'', PStr ''Amazon EC2'')]]"
  let ?ev = "example_event (PStr (dumps ec2_twice))"
  have s: "py_getitem ?ev ''services'' = Inr (PStr (dumps ec2_twice))"
    by (rule example_event_items)
  from report_keys [OF s loads_ec2_twice_entries run]
  obtain names keys vals report sd ed a where
    R: "py_getitem ?ev ''start_date'' = Inr sd"
    "py_getitem ?ev ''end_date'' = Inr ed"
    "py_getitem ?ev ''account_id'' = Inr a"
    "map (\<lambda>x. py_getitem x ''Service'') ?entries = map Inr names"
    "names = map of_key keys"
    "length vals = length ?entries"
    "body resp = dumps (PDict report)"
    "last (logged st') = INFO (PDict report)"
    "set (norm_keys report) = key_norm ` set keys"
    "distinct (norm_keys report)"
    "\<forall>i<length ?entries.
        (\<forall>j. i < j \<and> j < length ?entries \<longrightarrow> \<not> key_eq (keys ! j) (keys ! i)) \<longrightarrow>
        dict_lookup report (keys ! i) = Some (vals ! i)"
    "\<forall>i<length ?entries. \<forall>s::state.
        calls s = take (length (calls idle) + i) (calls st') \<longrightarrow>
        fst (breakdown_service_cost example_env (names ! i) a sd ed s) = Inr (vals ! i)"
    by (elim exE conjE)
  from R(1-3) have ev: "sd = PStr ''2024-01-01''" "ed = PStr ''2024-01-08''"
      "a = PStr ''123456789012''"
    by (simp_all add: example_event_items)
  from R(4) have names: "names = [PStr ''Amazon EC2'', PStr ''Amazon EC2'']"
    by (auto simp: dict_getitem_def key_eq_def)
  from R(5) names have keys: "keys = [KStr ''Amazon EC2'', KStr ''Amazon EC2'']"
  proof -
    from R(5) names have "map of_key keys = [PStr ''Amazon EC2'', PStr ''Amazon EC2'']" by simp
    then obtain k1 k2 where "keys = [k1, k2]" "of_key k1 = PStr ''Amazon EC2''"
        "of_key k2 = PStr ''Amazon EC2''"
      by (auto simp: map_eq_Cons_conv)
    then show ?thesis by (simp add: of_key_PStr)
  qed
  from R(9) keys have keyset: "set (norm_keys report) = {KStr ''Amazon EC2''}"
    by simp
  have one: "(1::nat) < length ?entries" by simp
  have nolater: "\<forall>j. 1 < j \<and> j < length ?entries \<longrightarrow> \<not> key_eq (keys ! j) (keys ! 1)"
  proof (intro allI impI)
    fix j :: nat
    assume "1 < j \<and> j < length ?entries"
    then have "1 < j \<and> j < 2" by simp
    then have False by linarith
    then show "\<not> key_eq (keys ! j) (keys ! 1)" ..
  qed
  from R(11) have "1 < length ?entries \<longrightarrow>
      (\<forall>j. 1 < j \<and> j < length ?entries \<longrightarrow> \<not> key_eq (keys ! j) (keys ! 1)) \<longrightarrow>
      dict_lookup report (keys ! 1) = Some (vals ! 1)"
    by (rule spec)
  from this [THEN mp, OF one, THEN mp, OF nolater]
  have "dict_lookup report (keys ! 1) = Some (vals ! 1)" .
  then have stored: "dict_lookup report (KStr ''Amazon EC2'') = Some (vals ! 1)"
    by (simp add: keys)
  let ?s = "\<lparr>calls = [request (PStr ''Amazon EC2'') (PStr ''123456789012'') (PStr ''2024-01-01'')
                 (PStr ''2024-01-08'')], logged = []\<rparr>"
  have cs: "calls ?s = take (length (calls idle) + 1) (calls st')"
    by (simp add: trace idle_def)
  from R(12) have "1 < length ?entries \<longrightarrow>
      (\<forall>s::state. calls s = take (length (calls idle) + 1) (calls st') \<longrightarrow>
        fst (breakdown_service_cost example_env (names ! 1) a sd ed s) = Inr (vals ! 1))"
    by (rule spec)
  from this [THEN mp, OF one, THEN spec, of ?s, THEN mp, OF cs]
  have "fst (breakdown_service_cost example_env (names ! 1) a sd ed ?s) = Inr (vals ! 1)" .
  then have "fst (breakdown_service_cost example_env (PStr ''Amazon EC2'') (PStr ''123456789012'')
     (PStr ''2024-01-01'') (PStr ''2024-01-08'') ?s) = Inr (vals ! 1)"
    by (simp add: names ev)
  then have "vals ! 1 =
      PList [PDict [(KStr ''Groups'', PList []), (KStr ''Estimated'', PBool False)]]"
    by (simp only: second_ec2_call fst_conv sum.inject)
  with stored have final: "dict_lookup report (KStr ''Amazon EC2'') =
      Some (PList [PDict [(KStr ''Groups'', PList []), (KStr ''Estimated'', PBool False)]])"
    by simp
  show ?thesis
    apply (rule exI [of _ resp])
    apply (rule exI [of _ st'])
    apply (rule conjI)
     apply (fact run)
    apply (rule exI [of _ report])
    apply (intro conjI)
        apply (fact R(7))
       apply (fact R(8))
      apply (fact keyset)
     apply (fact R(10))
    apply (fact final)
    done
qed

end
